theory Spec2Isabelle
  imports Main "HOL-Library.Word"
begin

section \<open>The tile of src/source/tile.js\<close>

text \<open>
  A shallow embedding of the class \<open>Tile\<close>. A method that mutates the tile takes the
  tile and returns the updated tile; the calls it makes into the GPU layer (bucket,
  texture, buffer and segment objects: \<open>destroy()\<close>, \<open>upload(gl)\<close>, \<open>new Texture\<close>,
  \<open>new VertexBuffer\<close>, \<open>new IndexBuffer\<close>) are returned as a list of effects, in call order.
  Clock readings (\<open>Date.now()\<close>) and the helpers the file requires from other modules are
  parameters of the functions that use them.
\<close>

subsection \<open>Data\<close>

datatype TileState = Loading | Loaded | Reloading | Unloaded | Errored | Expired

text \<open>
  \<open>expirationTime: any\<close> holds \<open>null\<close> (the constructor) or a number; the number is an
  integer count of milliseconds or \<open>NaN\<close> (\<open>new Date(s).getTime()\<close> of an invalid date).
\<close>

datatype JSNumber = JSNull | JSNaN | JSNum int

text \<open>JavaScript truthiness of such a value: \<open>null\<close>, \<open>NaN\<close> and \<open>0\<close> are falsy.\<close>

fun truthy :: "JSNumber \<Rightarrow> bool" where
  "truthy JSNull = False"
| "truthy JSNaN = False"
| "truthy (JSNum n) = (n \<noteq> 0)"

record TileCoord =
  coord_z :: int
  coord_x :: int
  coord_y :: int

text \<open>
  Buckets are objects: the tile's \<open>buckets\<close> object maps a layer id to a reference, and
  one bucket may stand under several layer ids. The bucket objects live in a store
  indexed by reference; \<open>uploaded\<close> is the only field of a bucket the tile writes.
\<close>

type_synonym ref = nat

record Bucket =
  isSymbolBucket :: bool
  uploaded :: bool

type_synonym BucketStore = "ref \<Rightarrow> Bucket"

datatype Image = Image "nat list"

datatype TextureFormat = RGBA | ALPHA

datatype Texture = Texture Image TextureFormat

datatype CollisionBoxArray = CollisionBoxArray "int list"

type_synonym RawTileData = "nat list"

datatype FeatureIndex = FeatureIndex nat "RawTileData option"

type_synonym Vertex = "int \<times> int \<times> int \<times> int"

type_synonym Triangle = "nat \<times> nat \<times> nat"

datatype VertexBuffer = VertexBuffer "Vertex list"

datatype IndexBuffer = IndexBuffer "Triangle list"

record Segment =
  vertexOffset :: nat
  primitiveOffset :: nat
  vertexLength :: nat
  primitiveLength :: nat

type_synonym SegmentVector = "Segment list"

text \<open>
  A mask (\<open>{[number]: boolean}\<close>) is listed in the order of \<open>Object.keys\<close>; a vector tile
  layer is the list of its features, and the parsed layers are listed by name. The field
  \<open>mask\<close> of the tile is \<open>tileMask\<close> here. A field that is \<open>undefined\<close> or \<open>null\<close> is
  \<open>None\<close>.
\<close>

type_synonym Mask = "(nat \<times> bool) list"

type_synonym VectorTileFeature = nat

type_synonym VectorTileLayer = "VectorTileFeature list"

type_synonym VectorTileLayers = "(string \<times> VectorTileLayer) list"

record Tile =
  coord :: TileCoord
  uid :: nat
  uses :: int
  tileSize :: int
  sourceMaxZoom :: int
  buckets :: "(string \<times> ref) list"
  iconAtlasImage :: "Image option"
  iconAtlasTexture :: "Texture option"
  glyphAtlasImage :: "Image option"
  glyphAtlasTexture :: "Texture option"
  expirationTime :: JSNumber
  expiredRequestCount :: nat
  state :: TileState
  rawTileData :: "RawTileData option"
  collisionBoxArray :: "CollisionBoxArray option"
  featureIndex :: "FeatureIndex option"
  vtLayers :: "VectorTileLayers option"
  tileMask :: "Mask option"
  maskedBoundsBuffer :: "VertexBuffer option"
  maskedIndexBuffer :: "IndexBuffer option"
  segments :: "SegmentVector option"

datatype Effect =
    BucketDestroy ref
  | BucketUpload ref
  | TextureCreate Texture
  | TextureDestroy Texture
  | SegmentsDestroy SegmentVector
  | VertexBufferCreate VertexBuffer
  | VertexBufferDestroy VertexBuffer
  | IndexBufferCreate IndexBuffer
  | IndexBufferDestroy IndexBuffer


subsection \<open>Construction and the state predicates\<close>

text \<open>The constructor; \<open>u\<close> is the value \<open>util.uniqueId()\<close> returns.\<close>

definition newTile :: "TileCoord \<Rightarrow> int \<Rightarrow> int \<Rightarrow> nat \<Rightarrow> Tile" where
  "newTile c sz maxZoom u =
     \<lparr> coord = c, uid = u, uses = 0, tileSize = sz, sourceMaxZoom = maxZoom,
       buckets = [], iconAtlasImage = None, iconAtlasTexture = None,
       glyphAtlasImage = None, glyphAtlasTexture = None,
       expirationTime = JSNull, expiredRequestCount = 0, state = Loading,
       rawTileData = None, collisionBoxArray = None, featureIndex = None,
       vtLayers = None, tileMask = None, maskedBoundsBuffer = None,
       maskedIndexBuffer = None, segments = None \<rparr>"

definition wasRequested :: "Tile \<Rightarrow> bool" where
  "wasRequested t = (state t = Errored \<or> state t = Loaded \<or> state t = Reloading)"

definition hasData :: "Tile \<Rightarrow> bool" where
  "hasData t = (state t = Loaded \<or> state t = Reloading \<or> state t = Expired)"

subsection \<open>Ingesting and releasing vector data\<close>

record WorkerTileResult =
  data_rawTileData :: "RawTileData option"
  data_collisionBoxArray :: "int list"
  data_featureIndex :: nat
  data_buckets :: "nat list"
  data_iconAtlasImage :: "Image option"
  data_glyphAtlasImage :: "Image option"

text \<open>
  \<open>unloadVectorData\<close>: \<open>destroy()\<close> on every bucket in key order, \<open>buckets = {}\<close>,
  \<open>destroy()\<close> on each atlas texture that is set (the texture fields are not written),
  then the collision boxes, the feature index and the state.
\<close>

definition unloadVectorData :: "Tile \<Rightarrow> Tile \<times> Effect list" where
  "unloadVectorData t =
     (t\<lparr>buckets := [], collisionBoxArray := None, featureIndex := None, state := Unloaded\<rparr>,
      map (\<lambda>(k, b). BucketDestroy b) (buckets t) @
      (case iconAtlasTexture t of None \<Rightarrow> [] | Some tex \<Rightarrow> [TextureDestroy tex]) @
      (case glyphAtlasTexture t of None \<Rightarrow> [] | Some tex \<Rightarrow> [TextureDestroy tex]))"

text \<open>
  \<open>loadVectorData(data, painter)\<close>. \<open>deserializeBucket\<close> is the function required from
  \<open>../data/bucket\<close> and \<open>style\<close> is \<open>painter.style\<close>; \<open>FeatureIndex.deserialize\<close> and
  \<open>new CollisionBoxArray\<close> are the constructors of the datatypes above. The two atlas
  images are assigned twice, as in the source.
\<close>

definition loadVectorData ::
  "(nat list \<Rightarrow> nat \<Rightarrow> (string \<times> ref) list) \<Rightarrow> nat \<Rightarrow> Tile \<Rightarrow> WorkerTileResult option
     \<Rightarrow> Tile \<times> Effect list" where
  "loadVectorData deserializeBucket style t data =
     (let (t1, es) = (if hasData t then unloadVectorData t else (t, []));
          t2 = t1\<lparr>state := Loaded\<rparr>
      in case data of
           None \<Rightarrow> (t2\<lparr>collisionBoxArray := Some (CollisionBoxArray [])\<rparr>, es)
         | Some d \<Rightarrow>
             (let t3 = (case data_rawTileData d of
                          None \<Rightarrow> t2
                        | Some raw \<Rightarrow> t2\<lparr>rawTileData := Some raw\<rparr>);
                  t4 = t3\<lparr>collisionBoxArray :=
                            Some (CollisionBoxArray (data_collisionBoxArray d)),
                          featureIndex :=
                            Some (FeatureIndex (data_featureIndex d) (rawTileData t3)),
                          buckets := deserializeBucket (data_buckets d) style\<rparr>;
                  t5 = (case data_iconAtlasImage d of
                          None \<Rightarrow> t4
                        | Some img \<Rightarrow> t4\<lparr>iconAtlasImage := Some img\<rparr>);
                  t6 = (case data_glyphAtlasImage d of
                          None \<Rightarrow> t5
                        | Some img \<Rightarrow> t5\<lparr>glyphAtlasImage := Some img\<rparr>);
                  t7 = (case data_iconAtlasImage d of
                          None \<Rightarrow> t6
                        | Some img \<Rightarrow> t6\<lparr>iconAtlasImage := Some img\<rparr>);
                  t8 = (case data_glyphAtlasImage d of
                          None \<Rightarrow> t7
                        | Some img \<Rightarrow> t7\<lparr>glyphAtlasImage := Some img\<rparr>)
              in (t8, es)))"

subsection \<open>Upload\<close>

text \<open>
  The loop of \<open>upload(gl)\<close> over the bucket keys: a bucket whose flag is not set gets
  \<open>upload(gl)\<close> and the flag; the flag is written to the bucket object, so every key
  that refers to the same object sees it.
\<close>

fun uploadBuckets :: "BucketStore \<Rightarrow> (string \<times> ref) list \<Rightarrow> BucketStore \<times> Effect list" where
  "uploadBuckets h [] = (h, [])"
| "uploadBuckets h ((k, b) # rest) =
     (if \<not> uploaded (h b)
      then (let (h', es) = uploadBuckets (h(b := (h b)\<lparr>uploaded := True\<rparr>)) rest
            in (h', BucketUpload b # es))
      else uploadBuckets h rest)"

definition upload :: "BucketStore \<Rightarrow> Tile \<Rightarrow> BucketStore \<times> Tile \<times> Effect list" where
  "upload h t =
     (let (h1, es1) = uploadBuckets h (buckets t);
          (t1, es2) = (case iconAtlasImage t of
                         None \<Rightarrow> (t, [])
                       | Some img \<Rightarrow>
                           (t\<lparr>iconAtlasTexture := Some (Texture img RGBA),
                              iconAtlasImage := None\<rparr>,
                            [TextureCreate (Texture img RGBA)]));
          (t2, es3) = (case glyphAtlasImage t1 of
                         None \<Rightarrow> (t1, [])
                       | Some img \<Rightarrow>
                           (t1\<lparr>glyphAtlasTexture := Some (Texture img ALPHA),
                               glyphAtlasImage := None\<rparr>,
                            [TextureCreate (Texture img ALPHA)]))
      in (h1, t2, es1 @ es2 @ es3))"

subsection \<open>Source feature queries\<close>

record QueryParams =
  sourceLayer :: "string option"
  filterSpec :: "nat option"

record GeoJSONFeature =
  vectorTileFeature :: VectorTileFeature
  feature_z :: int
  feature_x :: int
  feature_y :: int
  tile :: TileCoord

text \<open>
  \<open>this.vtLayers._geojsonTileLayer || this.vtLayers[sourceLayer]\<close>. A name that is a key
  of the parsed layers is found and any other name is absent; the names of properties
  inherited from \<open>Object.prototype\<close> (such as \<open>constructor\<close>) are not covered.
\<close>

definition lookupLayer :: "VectorTileLayers \<Rightarrow> string \<Rightarrow> VectorTileLayer option" where
  "lookupLayer ls name =
     (case map_of ls ''_geojsonTileLayer'' of
        Some l \<Rightarrow> Some l
      | None \<Rightarrow> map_of ls name)"

text \<open>
  \<open>params ? params.sourceLayer : ''\<close>, used as a key: a missing \<open>params.sourceLayer\<close>
  is the key \<open>undefined\<close>. Then \<open>params && params.filter\<close>, and the record pushed for a
  feature: \<open>new GeoJSONFeature(feature, z, x, y)\<close> with \<open>tile\<close> set to \<open>{z, x, y}\<close>.
\<close>

definition sourceLayerName :: "QueryParams option \<Rightarrow> string" where
  "sourceLayerName params =
     (case params of
        None \<Rightarrow> []
      | Some p \<Rightarrow> (case sourceLayer p of None \<Rightarrow> ''undefined'' | Some s \<Rightarrow> s))"

definition filterOf :: "QueryParams option \<Rightarrow> nat option" where
  "filterOf params = (case params of None \<Rightarrow> None | Some p \<Rightarrow> filterSpec p)"

definition geojsonFeature :: "TileCoord \<Rightarrow> VectorTileFeature \<Rightarrow> GeoJSONFeature" where
  "geojsonFeature c f =
     \<lparr> vectorTileFeature = f, feature_z = coord_z c, feature_x = coord_x c,
       feature_y = coord_y c,
       tile = \<lparr> coord_z = coord_z c, coord_x = coord_x c, coord_y = coord_y c \<rparr> \<rparr>"

text \<open>
  \<open>querySourceFeatures(result, params)\<close>. \<open>parseVectorTile raw\<close> is
  \<open>new vt.VectorTile(new Protobuf(raw)).layers\<close> and \<open>featureFilter\<close> the function required
  from \<open>../style-spec/feature_filter\<close>, applied to the filter, the zoom and the feature.
  The parsed layers are cached in \<open>vtLayers\<close> on first use.
\<close>

definition querySourceFeatures ::
  "(RawTileData \<Rightarrow> VectorTileLayers) \<Rightarrow> (nat option \<Rightarrow> int \<Rightarrow> VectorTileFeature \<Rightarrow> bool)
     \<Rightarrow> Tile \<Rightarrow> GeoJSONFeature list \<Rightarrow> QueryParams option \<Rightarrow> Tile \<times> GeoJSONFeature list" where
  "querySourceFeatures parseVectorTile featureFilter t result params =
     (case rawTileData t of
        None \<Rightarrow> (t, result)
      | Some raw \<Rightarrow>
          (let layers = (case vtLayers t of None \<Rightarrow> parseVectorTile raw | Some ls \<Rightarrow> ls);
               t1 = t\<lparr>vtLayers := Some layers\<rparr>
           in case lookupLayer layers (sourceLayerName params) of
                None \<Rightarrow> (t1, result)
              | Some layer \<Rightarrow>
                  (let flt = featureFilter (filterOf params)
                   in (t1, result @
                         map (geojsonFeature (coord t))
                           (filter (flt (coord_z (coord t))) layer)))))"

subsection \<open>The mask\<close>

definition clearMask :: "Tile \<Rightarrow> Tile \<times> Effect list" where
  "clearMask t =
     (t\<lparr>segments := None, maskedBoundsBuffer := None, maskedIndexBuffer := None\<rparr>,
      (case segments t of None \<Rightarrow> [] | Some s \<Rightarrow> [SegmentsDestroy s]) @
      (case maskedBoundsBuffer t of None \<Rightarrow> [] | Some b \<Rightarrow> [VertexBufferDestroy b]) @
      (case maskedIndexBuffer t of None \<Rightarrow> [] | Some b \<Rightarrow> [IndexBufferDestroy b]))"

text \<open>
  Modelled from the spec: \<open>util.deepEqual\<close> is not under src/. Two masks are deep-equal
  when they have the same number of keys and every key of the first has the same value
  in the second; the order of the keys plays no part.
\<close>

definition deepEqual :: "Mask \<Rightarrow> Mask \<Rightarrow> bool" where
  "deepEqual a b = (length a = length b \<and> list_all (\<lambda>(k, v). map_of b k = Some v) a)"

text \<open>The mask \<open>{'0': true}\<close>, which stands for the whole tile.\<close>

definition wholeTile :: Mask where
  "wholeTile = [(0, True)]"

text \<open>
  \<open>util.deepEqual(this.mask, mask)\<close>: \<open>this.mask\<close> is \<open>undefined\<close> until the first mask is
  set, and \<open>undefined\<close> is deep-equal to no mask.
\<close>

fun sameMask :: "Mask option \<Rightarrow> Mask \<Rightarrow> bool" where
  "sameMask None m = False"
| "sameMask (Some cur) m = deepEqual cur m"

text \<open>
  Modelled from the spec: \<open>SegmentVector.prepareSegment\<close> is not under src/. A segment
  batches the vertices and triangles of one draw call and counts them; it starts at the
  current end of both arrays. \<open>prepareSegment\<close> returns the last segment of the vector,
  after starting a new one when there is none or when the last one cannot take
  \<open>numVertices\<close> more vertices within the capacity \<open>maxLen\<close>.
\<close>

definition prepareSegment :: "nat \<Rightarrow> nat \<Rightarrow> nat \<Rightarrow> nat \<Rightarrow> SegmentVector \<Rightarrow> SegmentVector" where
  "prepareSegment maxLen numVertices nVertices nTriangles segs =
     (if segs = [] \<or> maxLen < vertexLength (last segs) + numVertices
      then segs @ [\<lparr> vertexOffset = nVertices, primitiveOffset = nTriangles,
                     vertexLength = 0, primitiveLength = 0 \<rparr>]
      else segs)"

text \<open>
  The operators \<open>a >> n\<close> and \<open>a << n\<close> of JavaScript: on 32-bit two's complement
  integers, with the shift count taken modulo 32.
\<close>

definition js_shr :: "int \<Rightarrow> int \<Rightarrow> int" where
  "js_shr a n = sint (signed_drop_bit (nat (n mod 32)) (word_of_int a :: 32 word))"

definition js_shl :: "int \<Rightarrow> int \<Rightarrow> int" where
  "js_shl a n = sint (push_bit (nat (n mod 32)) (word_of_int a :: 32 word))"

text \<open>
  The four \<open>emplaceBack\<close> calls on the vertex array for the sub-region \<open>k\<close>: top left,
  top right, bottom left, bottom right, each with the position repeated as texture
  position. \<open>EXTENT\<close> is the constant of \<open>../data/extent\<close> and \<open>fromID\<close> is
  \<open>TileCoord.fromID\<close>.
\<close>

definition maskVertices :: "int \<Rightarrow> (nat \<Rightarrow> TileCoord) \<Rightarrow> nat \<Rightarrow> Vertex list" where
  "maskVertices EXTENT fromID k =
     (let maskCoord = fromID k;
          vertexExtent = js_shr EXTENT (coord_z maskCoord);
          tlx = coord_x maskCoord * vertexExtent;
          tly = coord_y maskCoord * vertexExtent;
          brx = tlx + vertexExtent;
          bry = tly + vertexExtent
      in [(tlx, tly, tlx, tly), (brx, tly, brx, tly), (tlx, bry, tlx, bry), (brx, bry, brx, bry)])"

text \<open>
  The body of the loop of \<open>setMask\<close> for the key \<open>k\<close>; the state is the segment vector,
  the vertex array and the index array. The segment \<open>prepareSegment\<close> returns is the last
  of the vector, and its two counters are updated in place.
\<close>

definition maskStep ::
  "int \<Rightarrow> (nat \<Rightarrow> TileCoord) \<Rightarrow> nat \<Rightarrow> nat
     \<Rightarrow> SegmentVector \<times> Vertex list \<times> Triangle list
     \<Rightarrow> SegmentVector \<times> Vertex list \<times> Triangle list" where
  "maskStep EXTENT fromID maxLen k acc =
     (case acc of (segs, vs, ts) \<Rightarrow>
        (let segs1 = prepareSegment maxLen 4 (length vs) (length ts) segs;
             segment = last segs1;
             vs1 = vs @ maskVertices EXTENT fromID k;
             offset = vertexLength segment;
             ts1 = ts @ [(offset, offset + 1, offset + 2), (offset + 1, offset + 2, offset + 3)];
             segs2 = butlast segs1 @
                       [segment\<lparr>vertexLength := vertexLength segment + 4,
                                primitiveLength := primitiveLength segment + 2\<rparr>]
         in (segs2, vs1, ts1)))"

text \<open>The loop over \<open>Object.keys(mask)\<close>.\<close>

fun maskLoop ::
  "int \<Rightarrow> (nat \<Rightarrow> TileCoord) \<Rightarrow> nat \<Rightarrow> nat list
     \<Rightarrow> SegmentVector \<times> Vertex list \<times> Triangle list
     \<Rightarrow> SegmentVector \<times> Vertex list \<times> Triangle list" where
  "maskLoop EXTENT fromID maxLen [] acc = acc"
| "maskLoop EXTENT fromID maxLen (k # ks) acc =
     maskLoop EXTENT fromID maxLen ks (maskStep EXTENT fromID maxLen k acc)"

definition setMask ::
  "int \<Rightarrow> (nat \<Rightarrow> TileCoord) \<Rightarrow> nat \<Rightarrow> Tile \<Rightarrow> Mask \<Rightarrow> Tile \<times> Effect list" where
  "setMask EXTENT fromID maxLen t m =
     (if sameMask (tileMask t) m then (t, [])
      else
        (let (t1, es) = clearMask (t\<lparr>tileMask := Some m\<rparr>)
         in if deepEqual m wholeTile then (t1, es)
            else
              (let segs0 = prepareSegment maxLen 0 0 0 [];
                   (segs, vs, ts) = maskLoop EXTENT fromID maxLen (map fst m) (segs0, [], [])
               in (t1\<lparr>segments := Some segs,
                       maskedBoundsBuffer := Some (VertexBuffer vs),
                       maskedIndexBuffer := Some (IndexBuffer ts)\<rparr>,
                   es @ [VertexBufferCreate (VertexBuffer vs),
                         IndexBufferCreate (IndexBuffer ts)]))))"

subsection \<open>Expiry\<close>

record ExpiryData =
  cacheControl :: "string option"
  expires :: "string option"

definition CLOCK_SKEW_RETRY_TIMEOUT :: int where
  "CLOCK_SKEW_RETRY_TIMEOUT = 30000"

text \<open>A header field that is absent or the empty string is falsy.\<close>

fun present :: "string option \<Rightarrow> string option" where
  "present None = None"
| "present (Some s) = (if s = [] then None else Some s)"

text \<open>
  The value of \<open>this.expirationTime\<close> after the first statement of \<open>setExpiryData\<close>.
  \<open>maxAge s\<close> is \<open>util.parseCacheControl(s)['max-age']\<close> (an integer, or absent) and
  \<open>getTime s\<close> is \<open>new Date(s).getTime()\<close>; \<open>now0\<close> is the clock reading taken there.
\<close>

definition newExpiration ::
  "(string \<Rightarrow> int option) \<Rightarrow> (string \<Rightarrow> JSNumber) \<Rightarrow> int \<Rightarrow> Tile \<Rightarrow> ExpiryData \<Rightarrow> JSNumber" where
  "newExpiration maxAge getTime now0 t data =
     (case present (cacheControl data) of
        Some cc \<Rightarrow>
          (case maxAge cc of
             None \<Rightarrow> expirationTime t
           | Some a \<Rightarrow> if a \<noteq> 0 then JSNum (now0 + a * 1000) else expirationTime t)
      | None \<Rightarrow>
          (case present (expires data) of
             Some e \<Rightarrow> getTime e
           | None \<Rightarrow> expirationTime t))"

text \<open>
  \<open>setExpiryData(data)\<close>; \<open>now\<close> is the clock reading of the second statement. The pair
  computed first is \<open>isExpired\<close> and the tile after the branch that sets it.
\<close>

definition setExpiryData ::
  "(string \<Rightarrow> int option) \<Rightarrow> (string \<Rightarrow> JSNumber) \<Rightarrow> int \<Rightarrow> int \<Rightarrow> Tile \<Rightarrow> ExpiryData \<Rightarrow> Tile" where
  "setExpiryData maxAge getTime now0 now t data =
     (let prior = expirationTime t;
          t1 = t\<lparr>expirationTime := newExpiration maxAge getTime now0 t data\<rparr>
      in case expirationTime t1 of
           JSNum e \<Rightarrow>
             if e = 0 then t1
             else
               (let (isExpired, t2) =
                      (if now < e then (False, t1)
                       else if \<not> truthy prior then (True, t1)
                       else
                         (case prior of
                            JSNum p \<Rightarrow>
                              if e < p then (True, t1)
                              else
                                (let delta = e - p
                                 in if delta = 0 then (True, t1)
                                    else (False, t1\<lparr>expirationTime :=
                                            JSNum (now + max delta CLOCK_SKEW_RETRY_TIMEOUT)\<rparr>))
                          | _ \<Rightarrow> (True, t1)))
                in if isExpired
                   then t2\<lparr>expiredRequestCount := expiredRequestCount t2 + 1, state := Expired\<rparr>
                   else t2\<lparr>expiredRequestCount := 0\<rparr>)
         | _ \<Rightarrow> t1)"

text \<open>
  \<open>getExpiryTimeout()\<close>; \<open>now\<close> is \<open>new Date().getTime()\<close>. \<open>None\<close> is the \<open>undefined\<close> the
  method returns when \<open>expirationTime\<close> is falsy.
\<close>

definition getExpiryTimeout :: "int \<Rightarrow> Tile \<Rightarrow> int option" where
  "getExpiryTimeout now t =
     (case expirationTime t of
        JSNum e \<Rightarrow>
          if e = 0 then None
          else if expiredRequestCount t \<noteq> 0
          then Some (1000 * js_shl 1 (min (int (expiredRequestCount t) - 1) 31))
          else Some (min (e - now) (2 ^ 31 - 1))
      | _ \<Rightarrow> None)"

subsection \<open>Invariants\<close>

text \<open>
  The tiles the class can produce: a tile starts at the constructor and changes by the
  methods above, by a write to its \<open>state\<close> field, which the owner of the tile does
  from outside the class (the class itself never sets \<open>reloading\<close> or \<open>errored\<close>), and
  by a change of the mask object: \<open>setMask\<close> stores the caller's object itself, so what
  the caller does to that object afterwards shows in the tile's \<open>mask\<close> field.
\<close>

inductive reachable :: "Tile \<Rightarrow> bool" where
  byConstructor: "reachable (newTile c sz maxZoom u)"
| byStateWrite: "reachable t \<Longrightarrow> reachable (t\<lparr>state := st\<rparr>)"
| byMaskObjectWrite:
    "reachable t \<Longrightarrow> tileMask t = Some m \<Longrightarrow> reachable (t\<lparr>tileMask := Some m'\<rparr>)"
| byLoadVectorData: "reachable t \<Longrightarrow> reachable (fst (loadVectorData D style t d))"
| byUnloadVectorData: "reachable t \<Longrightarrow> reachable (fst (unloadVectorData t))"
| byUpload: "reachable t \<Longrightarrow> reachable (fst (snd (upload h t)))"
| byQuerySourceFeatures: "reachable t \<Longrightarrow> reachable (fst (querySourceFeatures P F t r q))"
| byClearMask: "reachable t \<Longrightarrow> reachable (fst (clearMask t))"
| bySetMask: "reachable t \<Longrightarrow> reachable (fst (setMask E fromID maxLen t m))"
| bySetExpiryData: "reachable t \<Longrightarrow> reachable (setExpiryData maxAge getTime now0 now t data)"

text \<open>
  Sub-region \<open>i\<close> of a tessellation lies in a segment \<open>s\<close> of the vector: its four
  vertices (at \<open>4 * i\<close> of the vertex array) and its two triangles (at \<open>2 * i\<close> of the
  index array) are within the segment's ranges, and the two index triples are
  \<open>(offset, offset + 1, offset + 2)\<close> and \<open>(offset + 1, offset + 2, offset + 3)\<close> for the
  number \<open>offset\<close> of vertices the segment held before the sub-region. An index of a
  segment is relative to the segment's \<open>vertexOffset\<close>.
\<close>

definition quadIn :: "SegmentVector \<Rightarrow> Triangle list \<Rightarrow> nat \<Rightarrow> bool" where
  "quadIn segs ts i =
     (\<exists>s \<in> set segs.
        vertexOffset s \<le> 4 * i \<and> 4 * i + 4 \<le> vertexOffset s + vertexLength s \<and>
        primitiveOffset s \<le> 2 * i \<and> 2 * i + 2 \<le> primitiveOffset s + primitiveLength s \<and>
        (let offset = 4 * i - vertexOffset s
         in ts ! (2 * i) = (offset, offset + 1, offset + 2) \<and>
            ts ! (2 * i + 1) = (offset + 1, offset + 2, offset + 3)))"

text \<open>The state of the loop of \<open>setMask\<close> after \<open>n\<close> sub-regions.\<close>

definition loopInvariant :: "nat \<Rightarrow> SegmentVector \<times> Vertex list \<times> Triangle list \<Rightarrow> bool" where
  "loopInvariant n acc =
     (case acc of (segs, vs, ts) \<Rightarrow>
        segs \<noteq> [] \<and> length vs = 4 * n \<and> length ts = 2 * n \<and>
        vertexOffset (last segs) + vertexLength (last segs) = 4 * n \<and>
        primitiveOffset (last segs) + primitiveLength (last segs) = 2 * n \<and>
        (\<forall>i < n. quadIn segs ts i))"

subsection \<open>Example inputs\<close>

text \<open>
  Concrete tiles, payloads and helper functions, used where a property is evaluated:
  a tile at zoom 1 that has ingested a payload with two buckets and both atlas images,
  the same tile after \<open>upload\<close>, and the same tile after a failed reload has set its
  state to \<open>errored\<close>.
\<close>

definition exampleCoord :: TileCoord where
  "exampleCoord = \<lparr> coord_z = 1, coord_x = 0, coord_y = 1 \<rparr>"

definition exampleTile :: Tile where
  "exampleTile = newTile exampleCoord 512 14 7"

definition exampleDeserialize :: "nat list \<Rightarrow> nat \<Rightarrow> (string \<times> ref) list" where
  "exampleDeserialize bs style = zip [''water'', ''label''] bs"

definition exampleData :: WorkerTileResult where
  "exampleData =
     \<lparr> data_rawTileData = Some [26, 3], data_collisionBoxArray = [],
       data_featureIndex = 0, data_buckets = [1, 2],
       data_iconAtlasImage = Some (Image [255]),
       data_glyphAtlasImage = Some (Image [128]) \<rparr>"

definition loadedTile :: Tile where
  "loadedTile = fst (loadVectorData exampleDeserialize 0 exampleTile (Some exampleData))"

definition exampleStore :: BucketStore where
  "exampleStore r = \<lparr> isSymbolBucket = (r = 2), uploaded = False \<rparr>"

definition uploadedTile :: Tile where
  "uploadedTile = fst (snd (upload exampleStore loadedTile))"

definition erroredTile :: Tile where
  "erroredTile = loadedTile\<lparr>state := Errored\<rparr>"

definition exampleMaxAge :: "string \<Rightarrow> int option" where
  "exampleMaxAge s = (if s = ''max-age=60'' then Some 60 else None)"

definition exampleGetTime :: "string \<Rightarrow> JSNumber" where
  "exampleGetTime s = (if s = ''Thu, 01 Jan 1970 00:01:40 GMT'' then JSNum 100000 else JSNaN)"

definition maxAge60 :: ExpiryData where
  "maxAge60 = \<lparr> cacheControl = Some ''max-age=60'', expires = None \<rparr>"

definition expiresAt100s :: ExpiryData where
  "expiresAt100s = \<lparr> cacheControl = None, expires = Some ''Thu, 01 Jan 1970 00:01:40 GMT'' \<rparr>"

text \<open>An id decoder in the style of \<open>TileCoord.fromID\<close>: zoom in the low five bits.\<close>

definition exampleFromID :: "nat \<Rightarrow> TileCoord" where
  "exampleFromID k =
     (let zoom = k mod 32; dim = 2 ^ zoom; xy = k div 32
      in \<lparr> coord_z = int zoom, coord_x = int (xy mod dim),
           coord_y = int ((xy div dim) mod dim) \<rparr>)"

text \<open>
  A mask of two sub-regions, (zoom 1, x 1, y 0) and (zoom 2, x 1, y 3); the tile after
  \<open>setMask\<close> with it; and that tile after the caller has turned the mask object it holds
  into \<open>{'0': true}\<close>.
\<close>

definition exampleMask :: Mask where
  "exampleMask = [(33, True), (418, True)]"

definition maskedTile :: Tile where
  "maskedTile = fst (setMask 8192 exampleFromID 65535 exampleTile exampleMask)"

definition aliasedTile :: Tile where
  "aliasedTile = maskedTile\<lparr>tileMask := Some wholeTile\<rparr>"

text \<open>
  A tile whose second bucket stands under two layer ids and whose last bucket is
  already uploaded in the store.
\<close>

definition sharedBucketTile :: Tile where
  "sharedBucketTile =
     loadedTile\<lparr>buckets := [(''water'', 1), (''label'', 2), (''halo'', 2), (''land'', 3)]\<rparr>"

definition sharedBucketStore :: BucketStore where
  "sharedBucketStore r = \<lparr> isSymbolBucket = (r = 2), uploaded = (r = 3) \<rparr>"

definition exampleParse :: "RawTileData \<Rightarrow> VectorTileLayers" where
  "exampleParse raw = [(''roads'', raw)]"

definition exampleFilter :: "nat option \<Rightarrow> int \<Rightarrow> VectorTileFeature \<Rightarrow> bool" where
  "exampleFilter spec zoom f = True"

definition exampleParams :: QueryParams where
  "exampleParams = \<lparr> sourceLayer = Some ''roads'', filterSpec = None \<rparr>"

section \<open>Properties\<close>

subsection \<open>The example tiles\<close>

lemma loadedTile_eq:
  "loadedTile = exampleTile\<lparr>state := Loaded, rawTileData := Some [26, 3],
       collisionBoxArray := Some (CollisionBoxArray []),
       featureIndex := Some (FeatureIndex 0 (Some [26, 3])),
       buckets := [(''water'', 1), (''label'', 2)],
       iconAtlasImage := Some (Image [255]), glyphAtlasImage := Some (Image [128])\<rparr>"
  by (simp add: loadedTile_def loadVectorData_def hasData_def exampleTile_def newTile_def
      exampleData_def exampleDeserialize_def)

lemma uploadedTile_eq:
  "uploadedTile = loadedTile\<lparr>iconAtlasImage := None, glyphAtlasImage := None,
       iconAtlasTexture := Some (Texture (Image [255]) RGBA),
       glyphAtlasTexture := Some (Texture (Image [128]) ALPHA)\<rparr>"
  by (simp add: uploadedTile_def upload_def loadedTile_eq exampleTile_def newTile_def split_beta)

subsection \<open>State predicates\<close>

text \<open>
  Claim C1. For every tile, hasData() is true exactly when the state is one of loaded,
  reloading, expired, and wasRequested() is true exactly when the state is one of
  errored, loaded, reloading; so wasRequested() is false for an expired tile.
\<close>

theorem state_predicates:
  "hasData t = (state t \<in> {Loaded, Reloading, Expired}) \<and>
   wasRequested t = (state t \<in> {Errored, Loaded, Reloading}) \<and>
   wasRequested (t\<lparr>state := Expired\<rparr>) = False"
  by (simp add: hasData_def wasRequested_def)

subsection \<open>Ingesting an empty payload\<close>

lemma reachable_erroredTile: "reachable erroredTile"
  unfolding erroredTile_def loadedTile_def exampleTile_def
  by (intro reachable.intros)

text \<open>
  Claim C2, as the code has it. For every tile, loadVectorData with a null payload ends
  in state loaded with a present, empty collision-box array. When hasData() held before
  the call, the data held is released first (the effects are those of unloadVectorData)
  and the buckets end empty and the feature index absent. When hasData() did not hold,
  nothing is released and the buckets and the feature index are left as they were.
\<close>

theorem loadVectorData_null:
  "loadVectorData D s t None = (t', es) \<Longrightarrow>
     state t' = Loaded \<and> collisionBoxArray t' = Some (CollisionBoxArray []) \<and>
     (hasData t \<longrightarrow>
        buckets t' = [] \<and> featureIndex t' = None \<and> es = snd (unloadVectorData t)) \<and>
     (\<not> hasData t \<longrightarrow>
        buckets t' = buckets t \<and> featureIndex t' = featureIndex t \<and> es = [])"
  by (auto simp: loadVectorData_def unloadVectorData_def Let_def split: if_splits)

theorem loadVectorData_null_witness:
  "hasData loadedTile \<and>
   buckets (fst (loadVectorData exampleDeserialize 0 loadedTile None)) = [] \<and>
   snd (loadVectorData exampleDeserialize 0 loadedTile None) =
     [BucketDestroy 1, BucketDestroy 2] \<and>
   \<not> hasData erroredTile \<and>
   state (fst (loadVectorData exampleDeserialize 0 erroredTile None)) = Loaded \<and>
   snd (loadVectorData exampleDeserialize 0 erroredTile None) = []"
proof -
  have a: "hasData loadedTile"
    by (simp add: loadedTile_eq hasData_def)
  have b: "\<not> hasData erroredTile"
    by (simp add: erroredTile_def hasData_def)
  have u: "snd (unloadVectorData loadedTile) = [BucketDestroy 1, BucketDestroy 2]"
    by (simp add: loadedTile_eq unloadVectorData_def exampleTile_def newTile_def)
  note l = loadVectorData_null [OF surjective_pairing, of exampleDeserialize 0 loadedTile]
  note e = loadVectorData_null [OF surjective_pairing, of exampleDeserialize 0 erroredTile]
  show ?thesis
    using a b u l e by simp
qed

text \<open>
  The claim as stated fails for a tile that holds buckets in a state without data: a
  loaded tile whose state was then set to errored (a reachable tile) still holds its
  two buckets; ingesting null releases nothing and leaves both buckets in place.
\<close>

theorem loadVectorData_null_counterexample:
  "state erroredTile = Errored \<and>
   buckets (fst (loadVectorData exampleDeserialize 0 erroredTile None)) =
     [(''water'', 1), (''label'', 2)] \<and>
   buckets (fst (loadVectorData exampleDeserialize 0 erroredTile None)) \<noteq> [] \<and>
   snd (loadVectorData exampleDeserialize 0 erroredTile None) = []"
  by (simp add: erroredTile_def loadedTile_eq loadVectorData_def hasData_def)

subsection \<open>Unloading twice\<close>

lemma unloadVectorData_twice_tile:
  "fst (unloadVectorData (fst (unloadVectorData t))) = fst (unloadVectorData t)"
  by (simp add: unloadVectorData_def)

lemma unloadVectorData_twice_effects:
  "snd (unloadVectorData (fst (unloadVectorData t))) =
     (case iconAtlasTexture t of None \<Rightarrow> [] | Some tex \<Rightarrow> [TextureDestroy tex]) @
     (case glyphAtlasTexture t of None \<Rightarrow> [] | Some tex \<Rightarrow> [TextureDestroy tex])"
  by (simp add: unloadVectorData_def)

text \<open>
  Claim C3 at the tile that has uploaded both atlas textures. The first unloadVectorData
  destroys the two buckets and the two textures; the second call destroys no bucket and
  changes no field, but calls destroy() on both atlas textures again, since the first
  call left the texture fields set.
\<close>

theorem unloadVectorData_twice_destroys_textures:
  "snd (unloadVectorData uploadedTile) =
     [BucketDestroy 1, BucketDestroy 2,
      TextureDestroy (Texture (Image [255]) RGBA),
      TextureDestroy (Texture (Image [128]) ALPHA)] \<and>
   snd (unloadVectorData (fst (unloadVectorData uploadedTile))) =
     [TextureDestroy (Texture (Image [255]) RGBA),
      TextureDestroy (Texture (Image [128]) ALPHA)] \<and>
   fst (unloadVectorData (fst (unloadVectorData uploadedTile))) =
     fst (unloadVectorData uploadedTile)"
  by (simp add: unloadVectorData_def uploadedTile_eq loadedTile_eq)

subsection \<open>Expiry\<close>

text \<open>
  Claim C4, as the code has it. For a tile with a prior recorded expiration T0 (a number
  other than 0, which the code reads as unset), when setExpiryData computes a new
  expiration T1 (other than 0) with 0 < T1 - T0 < 30000: if T1 is not later than the
  clock reading now, the call ends with expirationTime equal to now + 30000; if T1 is
  later than now, expirationTime stays T1. In both cases the state is left as it was
  (the tile is not marked expired) and expiredRequestCount is reset to 0.
\<close>

theorem setExpiryData_interpolation:
  assumes "expirationTime t = JSNum T0" and "T0 \<noteq> 0"
    and "newExpiration maxAge getTime now0 t data = JSNum T1" and "T1 \<noteq> 0"
    and "0 < T1 - T0" and "T1 - T0 < 30000"
  shows "expirationTime (setExpiryData maxAge getTime now0 now t data) =
           JSNum (if now < T1 then T1 else now + 30000) \<and>
         state (setExpiryData maxAge getTime now0 now t data) = state t \<and>
         expiredRequestCount (setExpiryData maxAge getTime now0 now t data) = 0"
  using assms by (simp add: setExpiryData_def Let_def CLOCK_SKEW_RETRY_TIMEOUT_def)

theorem setExpiryData_interpolation_witness:
  "expirationTime (setExpiryData exampleMaxAge exampleGetTime 0 200000
       (loadedTile\<lparr>expirationTime := JSNum 90000, expiredRequestCount := 2\<rparr>)
       expiresAt100s) = JSNum 230000 \<and>
   state (setExpiryData exampleMaxAge exampleGetTime 0 200000
       (loadedTile\<lparr>expirationTime := JSNum 90000, expiredRequestCount := 2\<rparr>)
       expiresAt100s) = Loaded \<and>
   expiredRequestCount (setExpiryData exampleMaxAge exampleGetTime 0 200000
       (loadedTile\<lparr>expirationTime := JSNum 90000, expiredRequestCount := 2\<rparr>)
       expiresAt100s) = 0"
proof -
  have n: "newExpiration exampleMaxAge exampleGetTime 0
       (loadedTile\<lparr>expirationTime := JSNum 90000, expiredRequestCount := 2\<rparr>)
       expiresAt100s = JSNum 100000"
    by (simp add: newExpiration_def expiresAt100s_def exampleGetTime_def)
  show ?thesis
    using setExpiryData_interpolation
      [of "loadedTile\<lparr>expirationTime := JSNum 90000, expiredRequestCount := 2\<rparr>"
        90000 exampleMaxAge exampleGetTime 0 expiresAt100s 100000 200000, OF _ _ n]
    by (simp add: loadedTile_eq)
qed

text \<open>
  The claim as stated fails when the new expiration is still ahead of the clock: with
  prior expiration 60000, \<open>max-age=60\<close> read at clock 1000 gives T1 = 61000, and at
  clock 1001 the call keeps 61000 rather than 1001 + 30000.
\<close>

theorem setExpiryData_interpolation_counterexample:
  "expirationTime (loadedTile\<lparr>expirationTime := JSNum 60000\<rparr>) = JSNum 60000 \<and>
   newExpiration exampleMaxAge exampleGetTime 1000
       (loadedTile\<lparr>expirationTime := JSNum 60000\<rparr>) maxAge60 = JSNum 61000 \<and>
   expirationTime (setExpiryData exampleMaxAge exampleGetTime 1000 1001
       (loadedTile\<lparr>expirationTime := JSNum 60000\<rparr>) maxAge60) = JSNum 61000 \<and>
   expirationTime (setExpiryData exampleMaxAge exampleGetTime 1000 1001
       (loadedTile\<lparr>expirationTime := JSNum 60000\<rparr>) maxAge60) \<noteq> JSNum (1001 + 30000)"
  by (simp add: setExpiryData_def newExpiration_def maxAge60_def exampleMaxAge_def)

text \<open>
  Claim C5, as the code has it. For a tile with a prior recorded expiration T0, when
  setExpiryData computes a new expiration T1 (other than 0) with T1 < T0: if T1 is not
  later than the clock reading now, the state becomes expired and expiredRequestCount
  is one greater than before the call; if T1 is later than now, the state is left as it
  was and expiredRequestCount is reset to 0.
\<close>

theorem setExpiryData_regression:
  assumes "expirationTime t = JSNum T0"
    and "newExpiration maxAge getTime now0 t data = JSNum T1" and "T1 \<noteq> 0"
    and "T1 < T0"
  shows "state (setExpiryData maxAge getTime now0 now t data) =
           (if now < T1 then state t else Expired) \<and>
         expiredRequestCount (setExpiryData maxAge getTime now0 now t data) =
           (if now < T1 then 0 else expiredRequestCount t + 1)"
  using assms by (simp add: setExpiryData_def Let_def)

theorem setExpiryData_regression_witness:
  "state (setExpiryData exampleMaxAge exampleGetTime 0 200000
       (loadedTile\<lparr>expirationTime := JSNum 190000, expiredRequestCount := 2\<rparr>)
       expiresAt100s) = Expired \<and>
   expiredRequestCount (setExpiryData exampleMaxAge exampleGetTime 0 200000
       (loadedTile\<lparr>expirationTime := JSNum 190000, expiredRequestCount := 2\<rparr>)
       expiresAt100s) = 3"
proof -
  have n: "newExpiration exampleMaxAge exampleGetTime 0
       (loadedTile\<lparr>expirationTime := JSNum 190000, expiredRequestCount := 2\<rparr>)
       expiresAt100s = JSNum 100000"
    by (simp add: newExpiration_def expiresAt100s_def exampleGetTime_def)
  show ?thesis
    using setExpiryData_regression
      [of "loadedTile\<lparr>expirationTime := JSNum 190000, expiredRequestCount := 2\<rparr>"
        190000 exampleMaxAge exampleGetTime 0 expiresAt100s 100000 200000, OF _ n]
    by simp
qed

text \<open>
  The claim as stated fails when the new expiration is still ahead of the clock: with
  prior expiration 100000 and two expired requests counted, \<open>max-age=60\<close> read at clock
  1000 gives T1 = 61000 < 100000, and at clock 1001 the tile stays loaded with the
  counter reset to 0.
\<close>

theorem setExpiryData_regression_counterexample:
  "expirationTime (loadedTile\<lparr>expirationTime := JSNum 100000, expiredRequestCount := 2\<rparr>)
     = JSNum 100000 \<and>
   newExpiration exampleMaxAge exampleGetTime 1000
       (loadedTile\<lparr>expirationTime := JSNum 100000, expiredRequestCount := 2\<rparr>) maxAge60
     = JSNum 61000 \<and>
   state (setExpiryData exampleMaxAge exampleGetTime 1000 1001
       (loadedTile\<lparr>expirationTime := JSNum 100000, expiredRequestCount := 2\<rparr>) maxAge60)
     = Loaded \<and>
   expiredRequestCount (setExpiryData exampleMaxAge exampleGetTime 1000 1001
       (loadedTile\<lparr>expirationTime := JSNum 100000, expiredRequestCount := 2\<rparr>) maxAge60)
     = 0"
  by (simp add: setExpiryData_def newExpiration_def maxAge60_def exampleMaxAge_def loadedTile_eq)

subsection \<open>The timeout until the next check\<close>

lemma two_power_bound: "n < 31 \<Longrightarrow> (2::int) ^ n < 2 ^ 31"
  by (rule power_strict_increasing) simp_all

lemma sint_push_bit_one: "n < 31 \<Longrightarrow> sint (push_bit n (1 :: 32 word)) = 2 ^ n"
proof -
  assume n: "n < 31"
  have a: "push_bit n (1 :: 32 word) = word_of_int (2 ^ n)"
    by (simp add: push_bit_eq_mult)
  have b: "sint (word_of_int (2 ^ n) :: 32 word) = signed_take_bit 31 (2 ^ n)"
    using sint_sbintrunc' [where ?'a = 32, of "2 ^ n"] by simp
  have c: "signed_take_bit 31 ((2::int) ^ n) = 2 ^ n"
  proof (rule signed_take_bit_int_eq_self)
    have "- (2 ^ 31) \<le> (0::int)" by simp
    also have "(0::int) \<le> 2 ^ n" by simp
    finally show "- (2 ^ 31) \<le> (2::int) ^ n" .
    show "(2::int) ^ n < 2 ^ 31" by (rule two_power_bound [OF n])
  qed
  show ?thesis
    by (simp only: a b c)
qed

lemma js_shl_one: "n < 31 \<Longrightarrow> js_shl 1 (int n) = 2 ^ n"
  using sint_push_bit_one [of n] by (simp add: js_shl_def)

text \<open>No timeout without an expiration time; the remaining time, capped, without backoff.\<close>

lemma getExpiryTimeout_unset:
  "\<not> truthy (expirationTime t) \<Longrightarrow> getExpiryTimeout now t = None"
  by (cases "expirationTime t") (simp_all add: getExpiryTimeout_def)

lemma getExpiryTimeout_remaining:
  "expirationTime t = JSNum e \<Longrightarrow> e \<noteq> 0 \<Longrightarrow> expiredRequestCount t = 0 \<Longrightarrow>
     getExpiryTimeout now t = Some (min (e - now) (2 ^ 31 - 1))"
  by (simp add: getExpiryTimeout_def)

text \<open>The backoff doubles up to a count of 31 and is negative from 32 on.\<close>

lemma getExpiryTimeout_backoff:
  assumes "expirationTime t = JSNum e" and "e \<noteq> 0"
    and "0 < expiredRequestCount t" and "expiredRequestCount t \<le> 31"
  shows "getExpiryTimeout now t = Some (1000 * 2 ^ (expiredRequestCount t - 1))"
proof -
  obtain n where n: "expiredRequestCount t = Suc n" "n < 31"
    using assms(3,4) by (cases "expiredRequestCount t") auto
  have "js_shl 1 (min (int (Suc n) - 1) 31) = 2 ^ n"
    using js_shl_one [OF n(2)] n(2) by simp
  then show ?thesis
    using assms(1,2) n by (simp add: getExpiryTimeout_def)
qed

lemma getExpiryTimeout_overflow:
  assumes "expirationTime t = JSNum e" and "e \<noteq> 0" and "32 \<le> expiredRequestCount t"
  shows "getExpiryTimeout now t = Some (- 2147483648000)"
proof -
  have "min (int (expiredRequestCount t) - 1) 31 = 31"
    using assms(3) by simp
  then show ?thesis
    using assms by (simp add: getExpiryTimeout_def js_shl_def)
qed

text \<open>
  Claim C6 at a tile with an expiration time and 32 expired requests counted:
  \<open>1 << 31\<close> is -2147483648 on 32-bit integers, so getExpiryTimeout returns
  -2147483648000, not 1000 * 2^31 and not a positive value. The counts 1, 2 and 3 give
  1000, 2000 and 4000.
\<close>

theorem getExpiryTimeout_count_32:
  "getExpiryTimeout 0 (exampleTile\<lparr>expirationTime := JSNum 1000, expiredRequestCount := 32\<rparr>)
     = Some (- 2147483648000) \<and>
   map (\<lambda>n. getExpiryTimeout 0
              (exampleTile\<lparr>expirationTime := JSNum 1000, expiredRequestCount := n\<rparr>))
       [1, 2, 3] = [Some 1000, Some 2000, Some 4000]"
  by (simp add: getExpiryTimeout_def js_shl_def)

subsection \<open>The mask\<close>

lemma deepEqual_wholeTile: "deepEqual m wholeTile = (m = wholeTile)"
proof
  assume d: "deepEqual m wholeTile"
  then have "length m = 1" by (simp add: deepEqual_def wholeTile_def)
  then obtain k v where m: "m = [(k, v)]"
    by (cases m) (auto simp: length_Suc_conv)
  with d show "m = wholeTile"
    by (auto simp: deepEqual_def wholeTile_def split: if_splits)
next
  assume "m = wholeTile"
  then show "deepEqual m wholeTile" by (simp add: deepEqual_def wholeTile_def)
qed

lemma setMask_unchanged: "sameMask (tileMask t) m \<Longrightarrow> setMask E F M t m = (t, [])"
  by (simp add: setMask_def)

lemma setMask_new:
  assumes "\<not> sameMask (tileMask t) m" and "\<not> deepEqual m wholeTile"
  shows "setMask E F M t m =
     (let acc = maskLoop E F M (map fst m) (prepareSegment M 0 0 0 [], [], [])
      in ((fst (clearMask t))\<lparr>tileMask := Some m, segments := Some (fst acc),
             maskedBoundsBuffer := Some (VertexBuffer (fst (snd acc))),
             maskedIndexBuffer := Some (IndexBuffer (snd (snd acc)))\<rparr>,
          snd (clearMask t) @ [VertexBufferCreate (VertexBuffer (fst (snd acc))),
                               IndexBufferCreate (IndexBuffer (snd (snd acc)))]))"
  using assms by (simp add: setMask_def clearMask_def split_beta Let_def)

lemma maskedTile_mask: "tileMask maskedTile = Some exampleMask"
  by (simp add: maskedTile_def setMask_new exampleTile_def newTile_def
      exampleMask_def deepEqual_def wholeTile_def Let_def)

lemma sameMask_example: "sameMask (Some exampleMask) exampleMask"
  by (simp add: exampleMask_def deepEqual_def)

lemma maskedTile_eq:
  "maskedTile = exampleTile\<lparr>tileMask := Some exampleMask,
      segments := Some [\<lparr> vertexOffset = 0, primitiveOffset = 0, vertexLength = 8, primitiveLength = 4 \<rparr>],
      maskedBoundsBuffer := Some (VertexBuffer
        [(4096, 0, 4096, 0), (8192, 0, 8192, 0), (4096, 4096, 4096, 4096), (8192, 4096, 8192, 4096),
         (2048, 6144, 2048, 6144), (4096, 6144, 4096, 6144), (2048, 8192, 2048, 8192),
         (4096, 8192, 4096, 8192)]),
      maskedIndexBuffer := Some (IndexBuffer [(0, 1, 2), (1, 2, 3), (4, 5, 6), (5, 6, 7)])\<rparr>"
  by (simp add: maskedTile_def setMask_def clearMask_def exampleTile_def newTile_def
      exampleMask_def deepEqual_def wholeTile_def Let_def maskStep_def prepareSegment_def
      maskVertices_def exampleFromID_def js_shr_def)


lemma reachable_aliasedTile: "reachable aliasedTile"
proof -
  have "reachable maskedTile"
    unfolding maskedTile_def exampleTile_def by (intro reachable.intros)
  moreover have "tileMask maskedTile = Some exampleMask"
    by (simp add: maskedTile_eq)
  ultimately show ?thesis
    unfolding aliasedTile_def by (rule reachable.byMaskObjectWrite)
qed




subsection \<open>Mask tessellation\<close>

lemma length_maskVertices: "length (maskVertices E F k) = 4"
  by (simp add: maskVertices_def Let_def)

lemma maskVertices_texture:
  "list_all (\<lambda>(px, py, tx, ty). tx = px \<and> ty = py) (concat (map (maskVertices E F) ks))"
  by (induction ks) (simp_all add: maskVertices_def Let_def)

lemma quadIn_append:
  assumes "quadIn segs ts i" and "2 * i + 1 < length ts"
  shows "quadIn segs (ts @ us) i"
  using assms by (auto simp: quadIn_def nth_append Let_def)

lemma quadIn_mono:
  assumes "quadIn segs ts i" and "set segs \<subseteq> set segs'"
  shows "quadIn segs' ts i"
  using assms unfolding quadIn_def by blast

lemma quadIn_grow_last:
  assumes q: "quadIn segs ts i" and ne: "segs \<noteq> []"
  shows "quadIn (butlast segs @ [(last segs)\<lparr>vertexLength := vertexLength (last segs) + a,
                                            primitiveLength := primitiveLength (last segs) + b\<rparr>]) ts i"
proof -
  from q obtain s where s: "s \<in> set segs"
    "vertexOffset s \<le> 4 * i" "4 * i + 4 \<le> vertexOffset s + vertexLength s"
    "primitiveOffset s \<le> 2 * i" "2 * i + 2 \<le> primitiveOffset s + primitiveLength s"
    "ts ! (2 * i) = (4 * i - vertexOffset s, 4 * i - vertexOffset s + 1, 4 * i - vertexOffset s + 2)"
    "ts ! (2 * i + 1) = (4 * i - vertexOffset s + 1, 4 * i - vertexOffset s + 2, 4 * i - vertexOffset s + 3)"
    unfolding quadIn_def Let_def by blast
  let ?l = "(last segs)\<lparr>vertexLength := vertexLength (last segs) + a,
                          primitiveLength := primitiveLength (last segs) + b\<rparr>"
  have "segs = butlast segs @ [last segs]" using ne by simp
  then have "s \<in> set (butlast segs) \<or> s = last segs"
    using s(1) by (metis Un_iff empty_iff insert_iff list.set(1) list.set(2) set_append)
  then show ?thesis
  proof
    assume "s \<in> set (butlast segs)"
    then show ?thesis using s unfolding quadIn_def Let_def by auto
  next
    assume l: "s = last segs"
    have "?l \<in> set (butlast segs @ [?l])" by simp
    moreover have "vertexOffset ?l \<le> 4 * i" "4 * i + 4 \<le> vertexOffset ?l + vertexLength ?l"
      "primitiveOffset ?l \<le> 2 * i" "2 * i + 2 \<le> primitiveOffset ?l + primitiveLength ?l"
      "ts ! (2 * i) = (4 * i - vertexOffset ?l, 4 * i - vertexOffset ?l + 1, 4 * i - vertexOffset ?l + 2)"
      "ts ! (2 * i + 1) = (4 * i - vertexOffset ?l + 1, 4 * i - vertexOffset ?l + 2, 4 * i - vertexOffset ?l + 3)"
      using s l by simp_all
    ultimately show ?thesis unfolding quadIn_def Let_def by blast
  qed
qed

lemma maskStep_invariant:
  assumes inv: "loopInvariant n (segs, vs, ts)"
  shows "loopInvariant (Suc n) (maskStep E F M k (segs, vs, ts))"
proof -
  from inv have ne: "segs \<noteq> []" and lv: "length vs = 4 * n" and lt: "length ts = 2 * n"
    and vo: "vertexOffset (last segs) + vertexLength (last segs) = 4 * n"
    and po: "primitiveOffset (last segs) + primitiveLength (last segs) = 2 * n"
    and qs: "\<And>i. i < n \<Longrightarrow> quadIn segs ts i"
    by (auto simp: loopInvariant_def)
  define segs1 where "segs1 = prepareSegment M 4 (length vs) (length ts) segs"
  define seg where "seg = last segs1"
  define off where "off = vertexLength seg"
  define new where "new = [(off, off + 1, off + 2), (off + 1, off + 2, off + 3)]"
  define seg' where "seg' = seg\<lparr>vertexLength := vertexLength seg + 4,
                                 primitiveLength := primitiveLength seg + 2\<rparr>"
  define segs2 where "segs2 = butlast segs1 @ [seg']"
  have step: "maskStep E F M k (segs, vs, ts) = (segs2, vs @ maskVertices E F k, ts @ new)"
    by (simp add: maskStep_def Let_def segs1_def seg_def off_def new_def seg'_def segs2_def)
  have ne1: "segs1 \<noteq> []"
    by (simp add: segs1_def prepareSegment_def)
  have sub: "set segs \<subseteq> set segs1"
    by (auto simp: segs1_def prepareSegment_def)
  have seg_v: "vertexOffset seg + vertexLength seg = 4 * n"
    and seg_p: "primitiveOffset seg + primitiveLength seg = 2 * n"
    using vo po ne lv lt by (auto simp: seg_def segs1_def prepareSegment_def)
  have old: "quadIn segs2 (ts @ new) i" if "i < n" for i
  proof -
    have "quadIn segs1 ts i"
      using qs [OF that] sub by (rule quadIn_mono)
    then have "quadIn segs2 ts i"
      unfolding segs2_def seg'_def seg_def using ne1 by (rule quadIn_grow_last)
    then show ?thesis
      using that lt by (intro quadIn_append) simp_all
  qed
  have cur: "quadIn segs2 (ts @ new) n"
  proof -
    have "seg' \<in> set segs2" by (simp add: segs2_def)
    moreover have "vertexOffset seg' \<le> 4 * n" "4 * n + 4 \<le> vertexOffset seg' + vertexLength seg'"
      "primitiveOffset seg' \<le> 2 * n" "2 * n + 2 \<le> primitiveOffset seg' + primitiveLength seg'"
      using seg_v seg_p by (simp_all add: seg'_def)
    moreover have "4 * n - vertexOffset seg' = off"
      using seg_v by (simp add: seg'_def off_def)
    moreover have "(ts @ new) ! (2 * n) = (off, off + 1, off + 2)"
      "(ts @ new) ! (2 * n + 1) = (off + 1, off + 2, off + 3)"
      using lt by (simp_all add: nth_append new_def)
    ultimately show ?thesis
      unfolding quadIn_def Let_def by blast
  qed
  have all: "quadIn segs2 (ts @ new) i" if "i < Suc n" for i
    using that old cur by (cases "i = n") auto
  have "segs2 \<noteq> []" "last segs2 = seg'"
    by (simp_all add: segs2_def)
  moreover have "length (vs @ maskVertices E F k) = 4 * Suc n" "length (ts @ new) = 2 * Suc n"
    using lv lt by (simp_all add: length_maskVertices new_def)
  moreover have "vertexOffset seg' + vertexLength seg' = 4 * Suc n"
    "primitiveOffset seg' + primitiveLength seg' = 2 * Suc n"
    using seg_v seg_p by (simp_all add: seg'_def)
  ultimately show ?thesis
    using all by (simp add: step loopInvariant_def)
qed

lemma maskStep_vertices:
  "fst (snd (maskStep E F M k (segs, vs, ts))) = vs @ maskVertices E F k"
  by (simp add: maskStep_def Let_def)

lemma maskLoop_invariant:
  "loopInvariant n acc \<Longrightarrow> loopInvariant (n + length ks) (maskLoop E F M ks acc)"
proof (induction ks arbitrary: n acc)
  case Nil
  then show ?case by simp
next
  case (Cons k ks)
  obtain segs vs ts where acc: "acc = (segs, vs, ts)" by (cases acc)
  have "loopInvariant (Suc n) (maskStep E F M k acc)"
    using Cons.prems unfolding acc by (rule maskStep_invariant)
  from Cons.IH [OF this] show ?case by simp
qed

lemma maskLoop_vertices:
  "fst (snd (maskLoop E F M ks acc)) = fst (snd acc) @ concat (map (maskVertices E F) ks)"
proof (induction ks arbitrary: acc)
  case Nil
  then show ?case by simp
next
  case (Cons k ks)
  obtain segs vs ts where acc: "acc = (segs, vs, ts)" by (cases acc)
  show ?case
    using Cons [of "maskStep E F M k acc"] by (simp add: acc maskStep_vertices)
qed

lemma loopInvariant_start: "loopInvariant 0 (prepareSegment M 0 0 0 [], [], [])"
  by (simp add: loopInvariant_def prepareSegment_def)

lemma quad_at:
  "i < length ks \<Longrightarrow> take 4 (drop (4 * i) (concat (map (maskVertices E F) ks))) = maskVertices E F (ks ! i)"
proof (induction ks arbitrary: i)
  case Nil
  then show ?case by simp
next
  case (Cons k ks)
  show ?case
  proof (cases i)
    case 0
    then show ?thesis by (simp add: length_maskVertices)
  next
    case (Suc j)
    then show ?thesis
      using Cons.IH [of j] Cons.prems by (simp add: length_maskVertices)
  qed
qed

lemma maskVertices_nth:
  "maskVertices E F k ! 0 =
     (coord_x (F k) * js_shr E (coord_z (F k)), coord_y (F k) * js_shr E (coord_z (F k)),
      coord_x (F k) * js_shr E (coord_z (F k)), coord_y (F k) * js_shr E (coord_z (F k)))"
  "maskVertices E F k ! 1 =
     (coord_x (F k) * js_shr E (coord_z (F k)) + js_shr E (coord_z (F k)),
      coord_y (F k) * js_shr E (coord_z (F k)),
      coord_x (F k) * js_shr E (coord_z (F k)) + js_shr E (coord_z (F k)),
      coord_y (F k) * js_shr E (coord_z (F k)))"
  "maskVertices E F k ! 2 =
     (coord_x (F k) * js_shr E (coord_z (F k)),
      coord_y (F k) * js_shr E (coord_z (F k)) + js_shr E (coord_z (F k)),
      coord_x (F k) * js_shr E (coord_z (F k)),
      coord_y (F k) * js_shr E (coord_z (F k)) + js_shr E (coord_z (F k)))"
  "maskVertices E F k ! 3 =
     (coord_x (F k) * js_shr E (coord_z (F k)) + js_shr E (coord_z (F k)),
      coord_y (F k) * js_shr E (coord_z (F k)) + js_shr E (coord_z (F k)),
      coord_x (F k) * js_shr E (coord_z (F k)) + js_shr E (coord_z (F k)),
      coord_y (F k) * js_shr E (coord_z (F k)) + js_shr E (coord_z (F k)))"
  by (simp_all add: maskVertices_def Let_def numeral_3_eq_3)

lemma quad_nth:
  assumes "i < length ks" and "j < 4"
  shows "concat (map (maskVertices E F) ks) ! (4 * i + j) = maskVertices E F (ks ! i) ! j"
proof -
  let ?vs = "concat (map (maskVertices E F) ks)"
  have len: "length ?vs = 4 * length ks"
    by (induction ks) (simp_all add: length_maskVertices)
  have "maskVertices E F (ks ! i) ! j = take 4 (drop (4 * i) ?vs) ! j"
    using quad_at [OF assms(1), of E F] by simp
  also have "\<dots> = drop (4 * i) ?vs ! j"
    using assms(2) by simp
  also have "\<dots> = ?vs ! (4 * i + j)"
    using assms len by (simp add: nth_drop)
  finally show ?thesis by simp
qed

text \<open>
  Claim C8. On the tessellation path of setMask, that is for every mask that is neither
  the whole-tile mask nor deep-equal to the currently applied mask, setMask releases
  the old mask buffers and then creates one vertex buffer and one index buffer. For the
  i-th key of the mask, with e the tile extent shifted right by the sub-region's zoom
  and (x0, y0) = (x * e, y * e), the vertex buffer holds exactly four vertices at
  4 * i: (x0, y0), (x0 + e, y0), (x0, y0 + e), (x0 + e, y0 + e), each with its position
  repeated as texture position. The index buffer holds exactly two triangles at 2 * i:
  (offset, offset + 1, offset + 2) and (offset + 1, offset + 2, offset + 3), where
  offset is the number of vertices the sub-region's segment held before it; the
  sub-region's vertices and triangles lie in that segment, so relative to the
  segment's vertexOffset the triples refer to the four vertices just emitted.
\<close>

theorem setMask_tessellation:
  assumes "\<not> sameMask (tileMask t) m" and "\<not> deepEqual m wholeTile"
  shows "\<exists>segs vs ts.
     setMask E F M t m =
       (t\<lparr>tileMask := Some m, segments := Some segs,
          maskedBoundsBuffer := Some (VertexBuffer vs),
          maskedIndexBuffer := Some (IndexBuffer ts)\<rparr>,
        (case segments t of None \<Rightarrow> [] | Some s \<Rightarrow> [SegmentsDestroy s]) @
        (case maskedBoundsBuffer t of None \<Rightarrow> [] | Some b \<Rightarrow> [VertexBufferDestroy b]) @
        (case maskedIndexBuffer t of None \<Rightarrow> [] | Some b \<Rightarrow> [IndexBufferDestroy b]) @
        [VertexBufferCreate (VertexBuffer vs), IndexBufferCreate (IndexBuffer ts)]) \<and>
     length vs = 4 * length m \<and> length ts = 2 * length m \<and>
     (\<forall>i < length m.
        (let c = F (fst (m ! i)); e = js_shr E (coord_z c);
             x0 = coord_x c * e; y0 = coord_y c * e
         in vs ! (4 * i) = (x0, y0, x0, y0) \<and>
            vs ! (4 * i + 1) = (x0 + e, y0, x0 + e, y0) \<and>
            vs ! (4 * i + 2) = (x0, y0 + e, x0, y0 + e) \<and>
            vs ! (4 * i + 3) = (x0 + e, y0 + e, x0 + e, y0 + e)) \<and>
        (\<exists>s \<in> set segs.
           vertexOffset s \<le> 4 * i \<and> 4 * i + 4 \<le> vertexOffset s + vertexLength s \<and>
           primitiveOffset s \<le> 2 * i \<and> 2 * i + 2 \<le> primitiveOffset s + primitiveLength s \<and>
           (let offset = 4 * i - vertexOffset s
            in ts ! (2 * i) = (offset, offset + 1, offset + 2) \<and>
               ts ! (2 * i + 1) = (offset + 1, offset + 2, offset + 3))))"
proof -
  define acc where "acc = maskLoop E F M (map fst m) (prepareSegment M 0 0 0 [], [], [])"
  define segs where "segs = fst acc"
  define vs where "vs = fst (snd acc)"
  define ts where "ts = snd (snd acc)"
  have acc: "acc = (segs, vs, ts)"
    by (simp add: segs_def vs_def ts_def)
  have inv: "loopInvariant (length m) (segs, vs, ts)"
    using maskLoop_invariant [OF loopInvariant_start [of M], where ks = "map fst m" and E = E and F = F and M = M]
    by (simp add: acc_def [symmetric] acc)
  have vs: "vs = concat (map (maskVertices E F) (map fst m))"
    using maskLoop_vertices [of E F M "map fst m" "(prepareSegment M 0 0 0 [], [], [])"]
    by (simp add: acc_def [symmetric] vs_def)
  have quad: "let c = F (fst (m ! i)); e = js_shr E (coord_z c);
             x0 = coord_x c * e; y0 = coord_y c * e
         in vs ! (4 * i) = (x0, y0, x0, y0) \<and>
            vs ! (4 * i + 1) = (x0 + e, y0, x0 + e, y0) \<and>
            vs ! (4 * i + 2) = (x0, y0 + e, x0, y0 + e) \<and>
            vs ! (4 * i + 3) = (x0 + e, y0 + e, x0 + e, y0 + e)" if "i < length m" for i
  proof -
    have i: "i < length (map fst m)" using that by simp
    have "vs ! (4 * i) = maskVertices E F (fst (m ! i)) ! 0"
      using quad_nth [OF i, of 0 E F] that by (simp add: vs)
    moreover have "vs ! (4 * i + 1) = maskVertices E F (fst (m ! i)) ! 1"
      using quad_nth [OF i, of 1 E F] that by (simp add: vs)
    moreover have "vs ! (4 * i + 2) = maskVertices E F (fst (m ! i)) ! 2"
      using quad_nth [OF i, of 2 E F] that by (simp add: vs)
    moreover have "vs ! (4 * i + 3) = maskVertices E F (fst (m ! i)) ! 3"
      using quad_nth [OF i, of 3 E F] that by (simp add: vs)
    ultimately show ?thesis
      by (simp only: maskVertices_nth Let_def)
  qed
  have tri: "\<exists>s \<in> set segs.
           vertexOffset s \<le> 4 * i \<and> 4 * i + 4 \<le> vertexOffset s + vertexLength s \<and>
           primitiveOffset s \<le> 2 * i \<and> 2 * i + 2 \<le> primitiveOffset s + primitiveLength s \<and>
           (let offset = 4 * i - vertexOffset s
            in ts ! (2 * i) = (offset, offset + 1, offset + 2) \<and>
               ts ! (2 * i + 1) = (offset + 1, offset + 2, offset + 3))" if "i < length m" for i
    using inv that by (simp add: loopInvariant_def quadIn_def)
  have "setMask E F M t m =
       (t\<lparr>tileMask := Some m, segments := Some segs,
          maskedBoundsBuffer := Some (VertexBuffer vs),
          maskedIndexBuffer := Some (IndexBuffer ts)\<rparr>,
        (case segments t of None \<Rightarrow> [] | Some s \<Rightarrow> [SegmentsDestroy s]) @
        (case maskedBoundsBuffer t of None \<Rightarrow> [] | Some b \<Rightarrow> [VertexBufferDestroy b]) @
        (case maskedIndexBuffer t of None \<Rightarrow> [] | Some b \<Rightarrow> [IndexBufferDestroy b]) @
        [VertexBufferCreate (VertexBuffer vs), IndexBufferCreate (IndexBuffer ts)])"
    using setMask_new [OF assms, of E F M]
    by (simp add: Let_def acc_def [symmetric] segs_def vs_def ts_def clearMask_def)
  moreover have "length vs = 4 * length m" "length ts = 2 * length m"
    using inv by (simp_all add: loopInvariant_def)
  ultimately show ?thesis
    using quad tri by blast
qed

theorem setMask_tessellation_witness:
  "\<not> sameMask (tileMask exampleTile) exampleMask \<and> \<not> deepEqual exampleMask wholeTile \<and>
   setMask 8192 exampleFromID 65535 exampleTile exampleMask =
     (exampleTile\<lparr>tileMask := Some exampleMask,
        segments := Some [\<lparr> vertexOffset = 0, primitiveOffset = 0, vertexLength = 8,
                            primitiveLength = 4 \<rparr>],
        maskedBoundsBuffer := Some (VertexBuffer
          [(4096, 0, 4096, 0), (8192, 0, 8192, 0), (4096, 4096, 4096, 4096),
           (8192, 4096, 8192, 4096), (2048, 6144, 2048, 6144), (4096, 6144, 4096, 6144),
           (2048, 8192, 2048, 8192), (4096, 8192, 4096, 8192)]),
        maskedIndexBuffer := Some (IndexBuffer [(0, 1, 2), (1, 2, 3), (4, 5, 6), (5, 6, 7)])\<rparr>,
      [VertexBufferCreate (VertexBuffer
          [(4096, 0, 4096, 0), (8192, 0, 8192, 0), (4096, 4096, 4096, 4096),
           (8192, 4096, 8192, 4096), (2048, 6144, 2048, 6144), (4096, 6144, 4096, 6144),
           (2048, 8192, 2048, 8192), (4096, 8192, 4096, 8192)]),
       IndexBufferCreate (IndexBuffer [(0, 1, 2), (1, 2, 3), (4, 5, 6), (5, 6, 7)])]) \<and>
   segments (fst (setMask 8192 exampleFromID 4 exampleTile exampleMask)) =
     Some [\<lparr> vertexOffset = 0, primitiveOffset = 0, vertexLength = 4, primitiveLength = 2 \<rparr>,
           \<lparr> vertexOffset = 4, primitiveOffset = 2, vertexLength = 4, primitiveLength = 2 \<rparr>] \<and>
   maskedIndexBuffer (fst (setMask 8192 exampleFromID 4 exampleTile exampleMask)) =
     Some (IndexBuffer [(0, 1, 2), (1, 2, 3), (0, 1, 2), (1, 2, 3)]) \<and>
   \<not> sameMask (tileMask maskedTile) [(33, True)] \<and> \<not> deepEqual [(33, True)] wholeTile \<and>
   snd (setMask 8192 exampleFromID 65535 maskedTile [(33, True)]) =
     [SegmentsDestroy
        [\<lparr> vertexOffset = 0, primitiveOffset = 0, vertexLength = 8, primitiveLength = 4 \<rparr>],
      VertexBufferDestroy (VertexBuffer
          [(4096, 0, 4096, 0), (8192, 0, 8192, 0), (4096, 4096, 4096, 4096),
           (8192, 4096, 8192, 4096), (2048, 6144, 2048, 6144), (4096, 6144, 4096, 6144),
           (2048, 8192, 2048, 8192), (4096, 8192, 4096, 8192)]),
      IndexBufferDestroy (IndexBuffer [(0, 1, 2), (1, 2, 3), (4, 5, 6), (5, 6, 7)]),
      VertexBufferCreate (VertexBuffer
          [(4096, 0, 4096, 0), (8192, 0, 8192, 0), (4096, 4096, 4096, 4096),
           (8192, 4096, 8192, 4096)]),
      IndexBufferCreate (IndexBuffer [(0, 1, 2), (1, 2, 3)])]"
proof -
  have a: "\<not> sameMask (tileMask exampleTile) exampleMask"
    by (simp add: exampleTile_def newTile_def)
  have b: "\<not> deepEqual exampleMask wholeTile"
    by (simp add: deepEqual_def exampleMask_def wholeTile_def)
  note t = setMask_tessellation [OF a b, of 8192 exampleFromID 65535]
  have e: "setMask 8192 exampleFromID 65535 exampleTile exampleMask =
     (exampleTile\<lparr>tileMask := Some exampleMask,
        segments := Some [\<lparr> vertexOffset = 0, primitiveOffset = 0, vertexLength = 8,
                            primitiveLength = 4 \<rparr>],
        maskedBoundsBuffer := Some (VertexBuffer
          [(4096, 0, 4096, 0), (8192, 0, 8192, 0), (4096, 4096, 4096, 4096),
           (8192, 4096, 8192, 4096), (2048, 6144, 2048, 6144), (4096, 6144, 4096, 6144),
           (2048, 8192, 2048, 8192), (4096, 8192, 4096, 8192)]),
        maskedIndexBuffer := Some (IndexBuffer [(0, 1, 2), (1, 2, 3), (4, 5, 6), (5, 6, 7)])\<rparr>,
      [VertexBufferCreate (VertexBuffer
          [(4096, 0, 4096, 0), (8192, 0, 8192, 0), (4096, 4096, 4096, 4096),
           (8192, 4096, 8192, 4096), (2048, 6144, 2048, 6144), (4096, 6144, 4096, 6144),
           (2048, 8192, 2048, 8192), (4096, 8192, 4096, 8192)]),
       IndexBufferCreate (IndexBuffer [(0, 1, 2), (1, 2, 3), (4, 5, 6), (5, 6, 7)])])"
    by (simp add: setMask_def clearMask_def exampleTile_def newTile_def
        exampleMask_def deepEqual_def wholeTile_def Let_def maskStep_def prepareSegment_def
        maskVertices_def exampleFromID_def js_shr_def)
  have f: "segments (fst (setMask 8192 exampleFromID 4 exampleTile exampleMask)) =
     Some [\<lparr> vertexOffset = 0, primitiveOffset = 0, vertexLength = 4, primitiveLength = 2 \<rparr>,
           \<lparr> vertexOffset = 4, primitiveOffset = 2, vertexLength = 4, primitiveLength = 2 \<rparr>]"
    "maskedIndexBuffer (fst (setMask 8192 exampleFromID 4 exampleTile exampleMask)) =
     Some (IndexBuffer [(0, 1, 2), (1, 2, 3), (0, 1, 2), (1, 2, 3)])"
    by (simp_all add: setMask_def clearMask_def exampleTile_def newTile_def
        exampleMask_def deepEqual_def wholeTile_def Let_def maskStep_def prepareSegment_def
        maskVertices_def exampleFromID_def js_shr_def)
  have a': "\<not> sameMask (tileMask maskedTile) [(33, True)]"
    by (simp add: maskedTile_eq exampleMask_def deepEqual_def)
  have b': "\<not> deepEqual [(33, True)] wholeTile"
    by (simp add: deepEqual_def wholeTile_def)
  note t' = setMask_tessellation [OF a' b', of 8192 exampleFromID 65535]
  have g: "snd (setMask 8192 exampleFromID 65535 maskedTile [(33, True)]) =
     [SegmentsDestroy
        [\<lparr> vertexOffset = 0, primitiveOffset = 0, vertexLength = 8, primitiveLength = 4 \<rparr>],
      VertexBufferDestroy (VertexBuffer
          [(4096, 0, 4096, 0), (8192, 0, 8192, 0), (4096, 4096, 4096, 4096),
           (8192, 4096, 8192, 4096), (2048, 6144, 2048, 6144), (4096, 6144, 4096, 6144),
           (2048, 8192, 2048, 8192), (4096, 8192, 4096, 8192)]),
      IndexBufferDestroy (IndexBuffer [(0, 1, 2), (1, 2, 3), (4, 5, 6), (5, 6, 7)]),
      VertexBufferCreate (VertexBuffer
          [(4096, 0, 4096, 0), (8192, 0, 8192, 0), (4096, 4096, 4096, 4096),
           (8192, 4096, 8192, 4096)]),
      IndexBufferCreate (IndexBuffer [(0, 1, 2), (1, 2, 3)])]"
    using a' by (simp add: setMask_def clearMask_def maskedTile_eq
        deepEqual_def wholeTile_def Let_def maskStep_def prepareSegment_def
        maskVertices_def exampleFromID_def js_shr_def)
  show ?thesis
    using a b e f t a' b' g t' by blast
qed

subsection \<open>Upload\<close>

lemma uploadBuckets_Cons:
  "uploadBuckets h ((k, b) # rest) =
     (if uploaded (h b) then uploadBuckets h rest
      else (fst (uploadBuckets (h(b := (h b)\<lparr>uploaded := True\<rparr>)) rest),
            BucketUpload b # snd (uploadBuckets (h(b := (h b)\<lparr>uploaded := True\<rparr>)) rest)))"
  by (simp add: split_beta)

lemma uploadBuckets_flag:
  "uploaded (fst (uploadBuckets h xs) r) = (uploaded (h r) \<or> r \<in> snd ` set xs)"
proof (induction xs arbitrary: h)
  case Nil
  then show ?case by simp
next
  case (Cons x xs)
  obtain k b where x: "x = (k, b)" by (cases x)
  define h' where "h' = h(b := (h b)\<lparr>uploaded := True\<rparr>)"
  have h': "uploaded (h' r) = (uploaded (h r) \<or> r = b)"
    by (simp add: h'_def)
  show ?case
  proof (cases "uploaded (h b)")
    case True
    then show ?thesis
      using Cons [of h] by (auto simp: x uploadBuckets_Cons simp del: uploadBuckets.simps)
  next
    case False
    then show ?thesis
      using Cons [of h'] h'
      by (auto simp: x uploadBuckets_Cons h'_def [symmetric] simp del: uploadBuckets.simps)
  qed
qed

lemma uploadBuckets_noop:
  "list_all (\<lambda>(k, b). uploaded (h b)) xs \<Longrightarrow> uploadBuckets h xs = (h, [])"
  by (induction xs) auto

lemma uploadBuckets_effects:
  "set (snd (uploadBuckets h xs)) = BucketUpload ` {r \<in> snd ` set xs. \<not> uploaded (h r)}"
proof (induction xs arbitrary: h)
  case Nil
  then show ?case by simp
next
  case (Cons x xs)
  obtain k b where x: "x = (k, b)" by (cases x)
  define h' where "h' = h(b := (h b)\<lparr>uploaded := True\<rparr>)"
  have h': "\<And>r. uploaded (h' r) = (uploaded (h r) \<or> r = b)"
    by (simp add: h'_def)
  show ?case
  proof (cases "uploaded (h b)")
    case True
    then show ?thesis
      using Cons [of h] by (auto simp: x uploadBuckets_Cons simp del: uploadBuckets.simps)
  next
    case False
    have "set (snd (uploadBuckets h (x # xs))) = insert (BucketUpload b) (set (snd (uploadBuckets h' xs)))"
      using False by (simp add: x uploadBuckets_Cons h'_def del: uploadBuckets.simps)
    also have "\<dots> = insert (BucketUpload b) (BucketUpload ` {r \<in> snd ` set xs. \<not> uploaded (h r) \<and> r \<noteq> b})"
      by (simp add: Cons [of h'] h')
    also have "\<dots> = BucketUpload ` {r \<in> snd ` set (x # xs). \<not> uploaded (h r)}"
      using False by (auto simp: x)
    finally show ?thesis .
  qed
qed

lemma uploadBuckets_distinct: "distinct (snd (uploadBuckets h xs))"
proof (induction xs arbitrary: h)
  case Nil
  then show ?case by simp
next
  case (Cons x xs)
  obtain k b where x: "x = (k, b)" by (cases x)
  define h' where "h' = h(b := (h b)\<lparr>uploaded := True\<rparr>)"
  have h': "uploaded (h' b)"
    by (simp add: h'_def)
  show ?case
  proof (cases "uploaded (h b)")
    case True
    then show ?thesis
      using Cons [of h] by (simp add: x uploadBuckets_Cons del: uploadBuckets.simps)
  next
    case False
    have "BucketUpload b \<notin> set (snd (uploadBuckets h' xs))"
      using h' by (auto simp: uploadBuckets_effects)
    moreover have "snd (uploadBuckets h (x # xs)) = BucketUpload b # snd (uploadBuckets h' xs)"
      using False by (simp add: x uploadBuckets_Cons h'_def del: uploadBuckets.simps)
    ultimately show ?thesis
      using Cons [of h'] by simp
  qed
qed

lemma uploadBuckets_all_flagged:
  "list_all (\<lambda>(k, b). uploaded (fst (uploadBuckets h xs) b)) xs"
  by (auto simp: list_all_iff uploadBuckets_flag intro: rev_image_eqI)

lemma uploaded_update: "uploaded b \<Longrightarrow> b\<lparr>uploaded := True\<rparr> = b"
  by (cases b) simp

lemma uploadBuckets_store:
  "fst (uploadBuckets h xs) = (\<lambda>r. if r \<in> snd ` set xs then (h r)\<lparr>uploaded := True\<rparr> else h r)"
proof (induction xs arbitrary: h)
  case Nil
  then show ?case by simp
next
  case (Cons x xs)
  obtain k b where x: "x = (k, b)" by (cases x)
  define h' where "h' = h(b := (h b)\<lparr>uploaded := True\<rparr>)"
  show ?case
  proof (cases "uploaded (h b)")
    case True
    have "fst (uploadBuckets h (x # xs)) = fst (uploadBuckets h xs)"
      using True by (simp add: x uploadBuckets_Cons del: uploadBuckets.simps)
    also have "\<dots> = (\<lambda>r. if r \<in> snd ` set xs then (h r)\<lparr>uploaded := True\<rparr> else h r)"
      by (rule Cons)
    also have "\<dots> = (\<lambda>r. if r \<in> snd ` set (x # xs) then (h r)\<lparr>uploaded := True\<rparr> else h r)"
      using True by (auto simp: x uploaded_update)
    finally show ?thesis .
  next
    case False
    have "fst (uploadBuckets h (x # xs)) = fst (uploadBuckets h' xs)"
      using False by (simp add: x uploadBuckets_Cons h'_def del: uploadBuckets.simps)
    also have "\<dots> = (\<lambda>r. if r \<in> snd ` set xs then (h' r)\<lparr>uploaded := True\<rparr> else h' r)"
      by (rule Cons)
    also have "\<dots> = (\<lambda>r. if r \<in> snd ` set (x # xs) then (h r)\<lparr>uploaded := True\<rparr> else h r)"
      by (auto simp: x h'_def)
    finally show ?thesis .
  qed
qed

lemma remdups_snoc:
  "remdups (zs @ [b]) = filter (\<lambda>r. r \<noteq> b) (remdups zs) @ [b]"
  by (induction zs) auto

lemma first_occurrences_Cons:
  "rev (remdups (rev (b # ys))) = b # rev (remdups (rev (filter (\<lambda>r. r \<noteq> b) ys)))"
  by (simp add: remdups_snoc remdups_filter rev_filter)

lemma uploadBuckets_calls:
  "snd (uploadBuckets h xs) =
     map BucketUpload (rev (remdups (rev (filter (\<lambda>r. \<not> uploaded (h r)) (map snd xs)))))"
proof (induction xs arbitrary: h)
  case Nil
  then show ?case by simp
next
  case (Cons x xs)
  obtain k b where x: "x = (k, b)" by (cases x)
  define h' where "h' = h(b := (h b)\<lparr>uploaded := True\<rparr>)"
  show ?case
  proof (cases "uploaded (h b)")
    case True
    then show ?thesis
      using Cons [of h] by (simp add: x uploadBuckets_Cons del: uploadBuckets.simps)
  next
    case False
    have f: "filter (\<lambda>r. \<not> uploaded (h' r)) (map snd xs) =
             filter (\<lambda>r. r \<noteq> b) (filter (\<lambda>r. \<not> uploaded (h r)) (map snd xs))"
      by (auto simp: h'_def intro: filter_cong)
    have "snd (uploadBuckets h (x # xs)) = BucketUpload b # snd (uploadBuckets h' xs)"
      using False by (simp add: x uploadBuckets_Cons h'_def del: uploadBuckets.simps)
    also have "\<dots> = map BucketUpload
         (b # rev (remdups (rev (filter (\<lambda>r. r \<noteq> b) (filter (\<lambda>r. \<not> uploaded (h r)) (map snd xs))))))"
      by (simp add: Cons [of h'] f)
    also have "\<dots> = map BucketUpload
         (rev (remdups (rev (filter (\<lambda>r. \<not> uploaded (h r)) (map snd (x # xs))))))"
      using False by (simp only: first_occurrences_Cons [symmetric]) (simp add: x)
    finally show ?thesis .
  qed
qed

text \<open>
  Claim C9. For every tile and bucket store, a call of upload sets the uploaded flag of
  every bucket of the tile and changes no other bucket, so every bucket of the tile is
  flagged afterwards; it calls upload(gl) on the buckets whose flag was not set, once
  each, in the order of their first keys; for each atlas image that is present it
  creates one texture from it and stores it in the tile's texture field; it clears both
  image fields and leaves the other fields of the tile, the buckets among them, as they
  were. A second call right after it makes no call and changes nothing.
\<close>

theorem upload_idempotent:
  assumes "upload h t = (h1, t1, es1)"
  shows "h1 = (\<lambda>r. if r \<in> snd ` set (buckets t) then (h r)\<lparr>uploaded := True\<rparr> else h r) \<and>
         list_all (\<lambda>(k, b). uploaded (h1 b)) (buckets t) \<and>
         buckets t1 = buckets t \<and>
         t1 = t\<lparr>iconAtlasTexture :=
                   (case iconAtlasImage t of
                      None \<Rightarrow> iconAtlasTexture t
                    | Some img \<Rightarrow> Some (Texture img RGBA)),
                 glyphAtlasTexture :=
                   (case glyphAtlasImage t of
                      None \<Rightarrow> glyphAtlasTexture t
                    | Some img \<Rightarrow> Some (Texture img ALPHA)),
                 iconAtlasImage := None, glyphAtlasImage := None\<rparr> \<and>
         es1 = map BucketUpload
                 (rev (remdups (rev (filter (\<lambda>r. \<not> uploaded (h r)) (map snd (buckets t)))))) @
               (case iconAtlasImage t of
                  None \<Rightarrow> []
                | Some img \<Rightarrow> [TextureCreate (Texture img RGBA)]) @
               (case glyphAtlasImage t of
                  None \<Rightarrow> []
                | Some img \<Rightarrow> [TextureCreate (Texture img ALPHA)]) \<and>
         upload h1 t1 = (h1, t1, [])"
proof -
  have h1: "h1 = fst (uploadBuckets h (buckets t))"
    using assms by (auto simp: upload_def split_beta)
  have store: "h1 = (\<lambda>r. if r \<in> snd ` set (buckets t) then (h r)\<lparr>uploaded := True\<rparr> else h r)"
    unfolding h1 by (rule uploadBuckets_store)
  have t1: "t1 = t\<lparr>iconAtlasTexture :=
                   (case iconAtlasImage t of
                      None \<Rightarrow> iconAtlasTexture t
                    | Some img \<Rightarrow> Some (Texture img RGBA)),
                 glyphAtlasTexture :=
                   (case glyphAtlasImage t of
                      None \<Rightarrow> glyphAtlasTexture t
                    | Some img \<Rightarrow> Some (Texture img ALPHA)),
                 iconAtlasImage := None, glyphAtlasImage := None\<rparr>"
    using assms by (auto simp: upload_def split_beta split: option.splits)
  have b1: "buckets t1 = buckets t"
    by (simp add: t1)
  have fl: "list_all (\<lambda>(k, b). uploaded (h1 b)) (buckets t)"
    unfolding h1 by (rule uploadBuckets_all_flagged)
  have es: "es1 = map BucketUpload
                 (rev (remdups (rev (filter (\<lambda>r. \<not> uploaded (h r)) (map snd (buckets t)))))) @
               (case iconAtlasImage t of
                  None \<Rightarrow> []
                | Some img \<Rightarrow> [TextureCreate (Texture img RGBA)]) @
               (case glyphAtlasImage t of
                  None \<Rightarrow> []
                | Some img \<Rightarrow> [TextureCreate (Texture img ALPHA)])"
    using assms uploadBuckets_calls [of h "buckets t"]
    by (auto simp: upload_def split_beta split: option.splits)
  have i1: "iconAtlasImage t1 = None" "glyphAtlasImage t1 = None"
    by (simp_all add: t1)
  have again: "upload h1 t1 = (h1, t1, [])"
    using uploadBuckets_noop [of h1 "buckets t1"] fl i1 by (simp add: upload_def b1)
  show ?thesis
    using store fl b1 t1 es again by blast
qed

theorem upload_idempotent_witness:
  "snd (snd (upload sharedBucketStore sharedBucketTile)) =
     [BucketUpload 1, BucketUpload 2, TextureCreate (Texture (Image [255]) RGBA),
      TextureCreate (Texture (Image [128]) ALPHA)] \<and>
   fst (snd (upload sharedBucketStore sharedBucketTile)) =
     sharedBucketTile\<lparr>iconAtlasTexture := Some (Texture (Image [255]) RGBA),
        glyphAtlasTexture := Some (Texture (Image [128]) ALPHA),
        iconAtlasImage := None, glyphAtlasImage := None\<rparr> \<and>
   map (\<lambda>r. uploaded (fst (upload sharedBucketStore sharedBucketTile) r)) [1, 2, 3, 4] =
     [True, True, True, False] \<and>
   upload (fst (upload sharedBucketStore sharedBucketTile))
          (fst (snd (upload sharedBucketStore sharedBucketTile))) =
     (fst (upload sharedBucketStore sharedBucketTile),
      fst (snd (upload sharedBucketStore sharedBucketTile)), [])"
proof -
  have u: "upload sharedBucketStore sharedBucketTile =
      (fst (upload sharedBucketStore sharedBucketTile),
       fst (snd (upload sharedBucketStore sharedBucketTile)),
       snd (snd (upload sharedBucketStore sharedBucketTile)))"
    by simp
  have b: "buckets sharedBucketTile = [(''water'', 1), (''label'', 2), (''halo'', 2), (''land'', 3)]"
    by (simp add: sharedBucketTile_def)
  have i: "iconAtlasImage sharedBucketTile = Some (Image [255])"
    "glyphAtlasImage sharedBucketTile = Some (Image [128])"
    by (simp_all add: sharedBucketTile_def loadedTile_eq)
  note t = upload_idempotent [OF u]
  have s: "fst (upload sharedBucketStore sharedBucketTile) =
      (\<lambda>r. if r \<in> snd ` set (buckets sharedBucketTile)
            then (sharedBucketStore r)\<lparr>uploaded := True\<rparr> else sharedBucketStore r)"
    using t by blast
  have f: "map (\<lambda>r. uploaded (fst (upload sharedBucketStore sharedBucketTile) r)) [1, 2, 3, 4] =
     [True, True, True, False]"
    unfolding s by (simp add: b sharedBucketStore_def)
  have e: "snd (snd (upload sharedBucketStore sharedBucketTile)) =
     [BucketUpload 1, BucketUpload 2, TextureCreate (Texture (Image [255]) RGBA),
      TextureCreate (Texture (Image [128]) ALPHA)]"
    using t by (simp add: b i sharedBucketStore_def)
  have r: "fst (snd (upload sharedBucketStore sharedBucketTile)) =
     sharedBucketTile\<lparr>iconAtlasTexture := Some (Texture (Image [255]) RGBA),
        glyphAtlasTexture := Some (Texture (Image [128]) ALPHA),
        iconAtlasImage := None, glyphAtlasImage := None\<rparr>"
    using t by (simp add: i)
  show ?thesis
    using e r f t by blast
qed

subsection \<open>Source features after unloading\<close>

lemma unload_keeps_raw:
  "rawTileData (fst (unloadVectorData t)) = rawTileData t \<and>
   vtLayers (fst (unloadVectorData t)) = vtLayers t \<and>
   coord (fst (unloadVectorData t)) = coord t"
  by (simp add: unloadVectorData_def)

lemma querySourceFeatures_result:
  "snd (querySourceFeatures P F t result params) =
     (case rawTileData t of
        None \<Rightarrow> result
      | Some raw \<Rightarrow>
          (case lookupLayer (case vtLayers t of None \<Rightarrow> P raw | Some ls \<Rightarrow> ls) (sourceLayerName params) of
             None \<Rightarrow> result
           | Some layer \<Rightarrow>
               result @ map (geojsonFeature (coord t)) (filter (F (filterOf params) (coord_z (coord t))) layer)))"
  by (simp add: querySourceFeatures_def Let_def split: option.splits)

text \<open>
  Claim C10. unloadVectorData empties the buckets and clears collisionBoxArray and
  featureIndex, but leaves rawTileData and the cached vtLayers as they were. So
  querySourceFeatures returns after the unload what it would have returned before it:
  for a tile that holds a raw payload, whenever the requested layer exists in the
  cached layers (or, without a cache, in the layers parsed from the raw payload), the
  records of the matching features of that layer are appended to the result.
\<close>

theorem querySourceFeatures_after_unload:
  "buckets (fst (unloadVectorData t)) = [] \<and>
   collisionBoxArray (fst (unloadVectorData t)) = None \<and>
   featureIndex (fst (unloadVectorData t)) = None \<and>
   rawTileData (fst (unloadVectorData t)) = rawTileData t \<and>
   vtLayers (fst (unloadVectorData t)) = vtLayers t \<and>
   snd (querySourceFeatures P F (fst (unloadVectorData t)) result params) =
     snd (querySourceFeatures P F t result params) \<and>
   (\<forall>raw layer.
      rawTileData t = Some raw \<longrightarrow>
      lookupLayer (case vtLayers t of None \<Rightarrow> P raw | Some ls \<Rightarrow> ls) (sourceLayerName params)
        = Some layer \<longrightarrow>
      snd (querySourceFeatures P F (fst (unloadVectorData t)) result params) =
        result @ map (geojsonFeature (coord t)) (filter (F (filterOf params) (coord_z (coord t))) layer))"
proof -
  have "snd (querySourceFeatures P F (fst (unloadVectorData t)) result params) =
     snd (querySourceFeatures P F t result params)"
    by (simp add: querySourceFeatures_result unload_keeps_raw cong: option.case_cong)
  moreover have "buckets (fst (unloadVectorData t)) = []"
    "collisionBoxArray (fst (unloadVectorData t)) = None"
    "featureIndex (fst (unloadVectorData t)) = None"
    by (simp_all add: unloadVectorData_def)
  ultimately show ?thesis
    by (simp add: querySourceFeatures_result unload_keeps_raw)
qed

theorem querySourceFeatures_after_unload_witness:
  "rawTileData loadedTile = Some [26, 3] \<and>
   lookupLayer (case vtLayers loadedTile of None \<Rightarrow> exampleParse [26, 3] | Some ls \<Rightarrow> ls)
     (sourceLayerName (Some exampleParams)) = Some [26, 3] \<and>
   snd (querySourceFeatures exampleParse exampleFilter (fst (unloadVectorData loadedTile)) []
          (Some exampleParams)) =
     [geojsonFeature exampleCoord 26, geojsonFeature exampleCoord 3]"
proof -
  have a: "rawTileData loadedTile = Some [26, 3]"
    by (simp add: loadedTile_eq)
  have b: "lookupLayer (case vtLayers loadedTile of None \<Rightarrow> exampleParse [26, 3] | Some ls \<Rightarrow> ls)
     (sourceLayerName (Some exampleParams)) = Some [26, 3]"
    by (simp add: loadedTile_eq exampleTile_def newTile_def exampleParse_def lookupLayer_def
        sourceLayerName_def exampleParams_def)
  have c: "coord loadedTile = exampleCoord"
    by (simp add: loadedTile_eq exampleTile_def newTile_def)
  have "snd (querySourceFeatures exampleParse exampleFilter (fst (unloadVectorData loadedTile)) []
          (Some exampleParams)) =
        [] @ map (geojsonFeature (coord loadedTile))
               (filter (exampleFilter (filterOf (Some exampleParams)) (coord_z (coord loadedTile))) [26, 3])"
    using a b querySourceFeatures_after_unload [of loadedTile exampleParse exampleFilter "[]" "Some exampleParams"]
    by blast
  then show ?thesis
    using a b c by (simp add: exampleFilter_def)
qed

end
